theory Spec2Isabelle
  imports Complex_Main "HOL-Library.Log_Nat"
begin

section \<open>JavaScript numbers\<close>

text \<open>
  Both the Mongoose model (\<^verbatim>\<open>backend/src/models/Goal.js\<close>) and the goal details page compute
  the percentage as \<^verbatim>\<open>Math.round((completed / total) * 100)\<close>. Every JavaScript Number is an
  IEEE 754 binary64 value, so the quotient and the product are each rounded to the nearest
  representable value (ties to the even significand) before \<^verbatim>\<open>Math.round\<close> sees them.
  The model keeps the values as rationals and applies that rounding after each operation.
  Only the normal range is modelled (no overflow, no subnormals): the operands here are array
  lengths and the constant 100.
\<close>

definition round_half_even :: "rat \<Rightarrow> int" where
  "round_half_even m =
     (let f = \<lfloor>m\<rfloor>; d = m - of_int f
      in if d < 1 / 2 then f else if 1 / 2 < d then f + 1 else if even f then f else f + 1)"

text \<open>The exponent \<open>e\<close> with \<open>2 ^ e \<le> x < 2 ^ (e + 1)\<close>, for positive \<open>x\<close>.\<close>

definition binade :: "rat \<Rightarrow> int" where
  "binade x =
     (let (a, b) = quotient_of x; d = bitlen a - bitlen b
      in if power_int 2 d \<le> x then d else d - 1)"

text \<open>Rounding to binary64: a significand of 53 bits, scaled by the unit in the last place.\<close>

definition fl64 :: "rat \<Rightarrow> rat" where
  "fl64 x =
     (if x = 0 then 0
      else let ulp = power_int 2 (binade \<bar>x\<bar> - 52)
           in sgn x * of_int (round_half_even (\<bar>x\<bar> / ulp)) * ulp)"

text \<open>
  \<^verbatim>\<open>Math.round\<close> returns the integer closest to its argument, and the one closer to plus
  infinity when two are equally close.
\<close>

definition Math_round :: "rat \<Rightarrow> int" where
  "Math_round x = \<lfloor>x + 1 / 2\<rfloor>"

text \<open>
  \<^verbatim>\<open>Math.round((k / n) * 100)\<close> for two array lengths. Every call site guards it with
  \<^verbatim>\<open>n > 0\<close>.
\<close>

definition jsPercent :: "nat \<Rightarrow> nat \<Rightarrow> int" where
  "jsPercent k n = Math_round (fl64 (fl64 (of_nat k / of_nat n) * 100))"

text \<open>
  The specification's formula, in exact arithmetic:
  \<^verbatim>\<open>progress = total == 0 ? 0 : round(100 * completedCount / total)\<close>, rounding half up.
\<close>

definition spec_progress :: "nat \<Rightarrow> nat \<Rightarrow> int" where
  "spec_progress k n = (if n = 0 then 0 else \<lfloor>100 * of_nat k / of_nat n + 1 / 2 :: rat\<rfloor>)"


section \<open>Goals and milestones\<close>

type_synonym ident = string

text \<open>
  The fields of a milestone that the dependency and progress logic reads or writes. The
  Mongoose subdocument (\<^verbatim>\<open>milestoneSchema\<close>) and the page's \<^verbatim>\<open>Milestone\<close> interface share
  them; \<open>mid\<close> is \<^verbatim>\<open>_id\<close> on the server and \<^verbatim>\<open>id\<close> in the page, and the page carries no
  \<^verbatim>\<open>completedAt\<close> (it stays as it is there). Timestamps are natural numbers.
\<close>

record milestone =
  mid :: ident
  title :: string
  dependencies :: "ident list"
  isCompleted :: bool
  completedAt :: "nat option"

datatype goal_status = Planning | Active | Paused | Completed | Cancelled

text \<open>
  \<^verbatim>\<open>goalSchema\<close>: \<open>finishedAt\<close> is \<^verbatim>\<open>actualDuration.completedAt\<close>, \<open>completedMilestones\<close> the
  stored counter.
\<close>

record goal =
  status :: goal_status
  progress :: int
  milestones :: "milestone list"
  completedMilestones :: nat
  finishedAt :: "nat option"

text \<open>\<^verbatim>\<open>milestones.id(x)\<close>: the first subdocument with that id, or null.\<close>

definition byId :: "milestone list \<Rightarrow> ident \<Rightarrow> milestone option" where
  "byId ms i = find (\<lambda>m. mid m = i) ms"


section \<open>The server: model methods and routes\<close>

text \<open>
  \<^verbatim>\<open>goalSchema.methods.updateProgress\<close>; \<open>now\<close> is the value of \<^verbatim>\<open>new Date()\<close>. Saving the
  document is left to the store.
\<close>

definition updateProgress :: "nat \<Rightarrow> goal \<Rightarrow> goal" where
  "updateProgress now g =
     (let done = length (filter isCompleted (milestones g));
          p = (if length (milestones g) > 0 then jsPercent done (length (milestones g)) else 0);
          g1 = g\<lparr>completedMilestones := done, progress := p\<rparr>
      in if p = 100 \<and> status g1 \<noteq> Completed
         then g1\<lparr>status := Completed, finishedAt := Some now\<rparr>
         else if p > 0 \<and> status g1 = Planning then g1\<lparr>status := Active\<rparr>
         else g1)"

text \<open>The assignment to the subdocument that \<^verbatim>\<open>milestones.id\<close> returned: the first match.\<close>

fun markCompleted :: "nat \<Rightarrow> ident \<Rightarrow> milestone list \<Rightarrow> milestone list" where
  "markCompleted now i [] = []"
| "markCompleted now i (m # ms) =
     (if mid m = i then m\<lparr>isCompleted := True, completedAt := Some now\<rparr> # ms
      else m # markCompleted now i ms)"

datatype error = MilestoneNotFound

text \<open>\<^verbatim>\<open>goalSchema.methods.completeMilestone\<close>, which throws when the id is unknown.\<close>

definition completeMilestone :: "nat \<Rightarrow> ident \<Rightarrow> goal \<Rightarrow> error + goal" where
  "completeMilestone now i g =
     (case byId (milestones g) i of
        Some m \<Rightarrow> Inr (updateProgress now (g\<lparr>milestones := markCompleted now i (milestones g)\<rparr>))
      | None \<Rightarrow> Inl MilestoneNotFound)"

text \<open>
  The dependency loop of \<^verbatim>\<open>PUT /api/goals/:id/milestones/:milestoneId\<close>: a dependency that
  is missing or incomplete is reported by its title, or by its id when there is no title.
\<close>

fun unmetDependencies :: "milestone list \<Rightarrow> ident list \<Rightarrow> string list" where
  "unmetDependencies ms [] = []"
| "unmetDependencies ms (depId # ds) =
     (case byId ms depId of
        None \<Rightarrow> depId # unmetDependencies ms ds
      | Some dep \<Rightarrow>
          if \<not> isCompleted dep
          then (if title dep = [] then depId else title dep) # unmetDependencies ms ds
          else unmetDependencies ms ds)"

datatype response =
    NotFound
  | AlreadyCompleted
  | DependenciesUnmet "string list"
  | Failed error
  | MilestoneCompleted
  | DependenciesUpdated milestone
  | ValidationFailed

text \<open>
  The route handler on a goal that was found, returning the response and the goal as it is
  afterwards. The progress-ledger entry written after a success belongs to another document
  and is not part of the goal.
\<close>

definition completeRoute :: "nat \<Rightarrow> goal \<Rightarrow> ident \<Rightarrow> response \<times> goal" where
  "completeRoute now g i =
     (case byId (milestones g) i of
        None \<Rightarrow> (NotFound, g)
      | Some m \<Rightarrow>
          if isCompleted m then (AlreadyCompleted, g)
          else let unmet = unmetDependencies (milestones g) (dependencies m)
               in if length unmet > 0 then (DependenciesUnmet unmet, g)
                  else (case completeMilestone now i g of
                          Inl e \<Rightarrow> (Failed e, g)
                        | Inr g' \<Rightarrow> (MilestoneCompleted, g')))"

text \<open>
  \<^verbatim>\<open>PUT /api/goals/:id/milestones/:milestoneId/dependencies\<close>. The route calls two library
  functions, which are parameters of its model: \<open>isMongoId\<close>, the express-validator test of
  each candidate, and \<open>castId\<close>, the cast of a string to an ObjectId (\<open>None\<close> when the cast
  throws). The stored ids are ObjectIds, written as the cast writes them. The request body's
  \<^verbatim>\<open>dependencies\<close> is an array of strings or something else.
\<close>

datatype candidates = NotAnArray | Candidates "string list"

text \<open>\<^verbatim>\<open>milestones.id(s)\<close> on a string taken from the request: cast, then compare.\<close>

definition lookupId :: "(string \<Rightarrow> ident option) \<Rightarrow> milestone list \<Rightarrow> string \<Rightarrow> milestone option" where
  "lookupId castId ms s = (case castId s of None \<Rightarrow> None | Some c \<Rightarrow> byId ms c)"

text \<open>
  The loop that keeps a candidate when it resolves to a milestone and differs, as a string,
  from the \<^verbatim>\<open>milestoneId\<close> of the request path.
\<close>

fun validDependencies ::
  "(string \<Rightarrow> ident option) \<Rightarrow> milestone list \<Rightarrow> string \<Rightarrow> string list \<Rightarrow> string list" where
  "validDependencies castId ms milestoneId [] = []"
| "validDependencies castId ms milestoneId (depId # ds) =
     (if lookupId castId ms depId \<noteq> None \<and> depId \<noteq> milestoneId
      then depId # validDependencies castId ms milestoneId ds
      else validDependencies castId ms milestoneId ds)"

fun assignDependencies :: "ident \<Rightarrow> ident list \<Rightarrow> milestone list \<Rightarrow> milestone list" where
  "assignDependencies i ds [] = []"
| "assignDependencies i ds (m # ms) =
     (if mid m = i then m\<lparr>dependencies := ds\<rparr> # ms else m # assignDependencies i ds ms)"

text \<open>
  The handler: the validation result first, then the milestone, then the loop; the
  assignment to the \<^verbatim>\<open>dependencies\<close> path casts each kept string.
\<close>

definition dependenciesRoute ::
  "(string \<Rightarrow> bool) \<Rightarrow> (string \<Rightarrow> ident option) \<Rightarrow> goal \<Rightarrow> string \<Rightarrow> candidates
     \<Rightarrow> response \<times> goal" where
  "dependenciesRoute isMongoId castId g milestoneId body =
     (case body of
        NotAnArray \<Rightarrow> (ValidationFailed, g)
      | Candidates deps \<Rightarrow>
          if \<not> list_all isMongoId deps then (ValidationFailed, g)
          else (case lookupId castId (milestones g) milestoneId of
                  None \<Rightarrow> (NotFound, g)
                | Some m \<Rightarrow>
                    let valid = validDependencies castId (milestones g) milestoneId deps;
                        cast = List.map_filter castId valid
                    in (DependenciesUpdated (m\<lparr>dependencies := cast\<rparr>),
                        g\<lparr>milestones := assignDependencies (mid m) cast (milestones g)\<rparr>)))"

text \<open>
  \<^verbatim>\<open>goalSchema.methods.addMilestone\<close>: the new milestone goes to the end of the list, and
  nothing else of the goal is touched. (The \<^verbatim>\<open>order\<close> that it is given is not among the
  fields kept here.)
\<close>

definition addMilestone :: "milestone \<Rightarrow> goal \<Rightarrow> goal" where
  "addMilestone milestoneData g = g\<lparr>milestones := milestones g @ [milestoneData]\<rparr>"

text \<open>
  A client that calls the model method repeatedly; a call that throws leaves the goal as it
  was. The result lists the goal after each call.
\<close>

fun completeAll :: "goal \<Rightarrow> (nat \<times> ident) list \<Rightarrow> goal list" where
  "completeAll g [] = []"
| "completeAll g ((now, i) # calls) =
     (let g' = (case completeMilestone now i g of Inl e \<Rightarrow> g | Inr g2 \<Rightarrow> g2)
      in g' # completeAll g' calls)"


section \<open>The goal details page\<close>

text \<open>
  Values read back from \<^verbatim>\<open>localStorage\<close> are untyped; \<open>JOther\<close> stands for arrays and objects.
\<close>

datatype json = JUndefined | JNull | JBool bool | JNum rat | JStr string | JOther

fun truthy :: "json \<Rightarrow> bool" where
  "truthy JUndefined = False"
| "truthy JNull = False"
| "truthy (JBool b) = b"
| "truthy (JNum x) = (x \<noteq> 0)"
| "truthy (JStr s) = (s \<noteq> [])"
| "truthy JOther = True"

datatype stored_milestones = MsArray "milestone list" | MsNumber rat | MsOther

text \<open>
  A stored goal; \<open>sg_id\<close> is \<^verbatim>\<open>String(g.id || g._id)\<close>. The elements of a stored milestone
  array are taken as already normalised milestones.
\<close>

record stored_goal =
  sg_id :: string
  sg_status :: json
  sg_progress :: json
  sg_milestones :: stored_milestones
  sg_completedMilestones :: json

text \<open>The page's \<^verbatim>\<open>Goal\<close>, without the descriptive fields.\<close>

record page_goal =
  pg_progress :: rat
  pg_status :: string
  pg_milestones :: rat
  pg_completedMilestones :: rat

text \<open>The mapping of one stored goal in the page's \<^verbatim>\<open>useEffect\<close>.\<close>

definition normalize :: "stored_goal \<Rightarrow> page_goal" where
  "normalize g =
     \<lparr>pg_progress = (case sg_progress g of JNum x \<Rightarrow> x | _ \<Rightarrow> 0),
      pg_status =
        (case sg_status g of
           JStr s \<Rightarrow> if s \<in> set [''active'', ''completed'', ''paused''] then s else ''active''
         | _ \<Rightarrow> ''active''),
      pg_milestones =
        (case sg_milestones g of
           MsArray ms \<Rightarrow> of_nat (length ms)
         | MsNumber x \<Rightarrow> x
         | MsOther \<Rightarrow> 0),
      pg_completedMilestones =
        (case sg_milestones g of
           MsArray ms \<Rightarrow> of_nat (length (filter isCompleted ms))
         | _ \<Rightarrow> (case sg_completedMilestones g of JNum x \<Rightarrow> x | _ \<Rightarrow> 0))\<rparr>"

text \<open>\<^verbatim>\<open>persistMilestones\<close>: the function mapped over the stored goals, and the map.\<close>

definition persistGoal :: "string \<Rightarrow> milestone list \<Rightarrow> stored_goal \<Rightarrow> stored_goal" where
  "persistGoal goalId updatedList g =
     (if sg_id g \<noteq> goalId then g
      else g\<lparr>sg_milestones := MsArray updatedList,
             sg_progress :=
               (if length updatedList > 0
                then JNum (of_int (jsPercent (length (filter isCompleted updatedList))
                                     (length updatedList)))
                else if truthy (sg_progress g) then sg_progress g else JNum 0)\<rparr>)"

definition persistMilestones :: "string \<Rightarrow> milestone list \<Rightarrow> stored_goal list \<Rightarrow> stored_goal list" where
  "persistMilestones goalId updatedList stored = map (persistGoal goalId updatedList) stored"

definition isMilestoneBlocked :: "milestone list \<Rightarrow> milestone \<Rightarrow> bool" where
  "isMilestoneBlocked milestoneList milestone =
     (if isCompleted milestone then False
      else list_ex
             (\<lambda>depId. case byId milestoneList depId of
                         None \<Rightarrow> False
                       | Some depMilestone \<Rightarrow> \<not> isCompleted depMilestone)
             (dependencies milestone))"

text \<open>The state of the page: the goal shown, the milestone list, and the stored goals.\<close>

record page =
  shown :: "page_goal option"
  milestoneList :: "milestone list"
  stored :: "stored_goal list"

text \<open>
  What a handler does besides changing the state: it throws, it alerts, or it finishes, and
  then \<open>Toggled (Some i)\<close> says that a progress entry for milestone \<open>i\<close> was sent.
\<close>

datatype ui_event = TypeError | Alert string | Toggled "ident option" | Edited

definition toggleMilestone :: "string \<Rightarrow> page \<Rightarrow> nat \<Rightarrow> ui_event \<times> page" where
  "toggleMilestone goalId pg index =
     (if length (milestoneList pg) \<le> index then (TypeError, pg)
      else let milestone = milestoneList pg ! index
           in if \<not> isCompleted milestone \<and> isMilestoneBlocked (milestoneList pg) milestone
              then (Alert ''Cannot complete this milestone. Please complete its dependencies first.'', pg)
              else let updated = (milestoneList pg)
                                   [index := milestone\<lparr>isCompleted := \<not> isCompleted milestone\<rparr>];
                       done = length (filter isCompleted updated)
                   in (Toggled (if \<not> isCompleted milestone then Some (mid milestone) else None),
                       \<lparr>shown =
                          map_option
                            (\<lambda>g. g\<lparr>pg_completedMilestones := of_nat done,
                                    pg_milestones := of_nat (length updated),
                                    pg_progress :=
                                      (if length updated > 0
                                       then of_int (jsPercent done (length updated))
                                       else pg_progress g)\<rparr>)
                            (shown pg),
                        milestoneList = updated,
                        stored = persistMilestones goalId updated (stored pg)\<rparr>))"

definition addDependency :: "string \<Rightarrow> page \<Rightarrow> ident \<Rightarrow> ident \<Rightarrow> ui_event \<times> page" where
  "addDependency goalId pg milestoneId dependencyId =
     (let updated = map (\<lambda>m. if mid m = milestoneId
                              then m\<lparr>dependencies := dependencies m @ [dependencyId]\<rparr>
                              else m)
                        (milestoneList pg)
      in (Edited, pg\<lparr>milestoneList := updated,
                     stored := persistMilestones goalId updated (stored pg)\<rparr>))"


section \<open>Sample goals\<close>

text \<open>
  A goal with \<open>n\<close> milestones of distinct ids, the first \<open>k\<close> of them completed, and a
  stored goal of the page, for the concrete instances below.
\<close>

definition sample_milestones :: "nat \<Rightarrow> nat \<Rightarrow> milestone list" where
  "sample_milestones k n =
     map (\<lambda>i. \<lparr>mid = replicate (Suc i) CHR ''m'', title = ''M'', dependencies = [],
                isCompleted = (i < k), completedAt = (if i < k then Some 0 else None)\<rparr>)
         [0..<n]"

definition sample_goal :: "goal_status \<Rightarrow> nat \<Rightarrow> nat \<Rightarrow> goal" where
  "sample_goal s k n =
     \<lparr>status = s, progress = 0, milestones = sample_milestones k n,
      completedMilestones = 0, finishedAt = None\<rparr>"

definition sample_stored :: "json \<Rightarrow> json \<Rightarrow> stored_goal" where
  "sample_stored st p =
     \<lparr>sg_id = ''g1'', sg_status = st, sg_progress = p, sg_milestones = MsOther,
      sg_completedMilestones = JUndefined\<rparr>"

text \<open>
  The three-step goal of the specification's scenario: B depends on A, and C on B; the
  arguments say which of the three are completed.
\<close>

definition chain :: "bool \<Rightarrow> bool \<Rightarrow> bool \<Rightarrow> milestone list" where
  "chain a b c =
     [\<lparr>mid = ''A'', title = ''Basics'', dependencies = [], isCompleted = a, completedAt = None\<rparr>,
      \<lparr>mid = ''B'', title = ''Practice'', dependencies = [''A''], isCompleted = b,
        completedAt = None\<rparr>,
      \<lparr>mid = ''C'', title = ''Project'', dependencies = [''B''], isCompleted = c,
        completedAt = None\<rparr>]"


definition chain_page :: "bool \<Rightarrow> bool \<Rightarrow> bool \<Rightarrow> page" where
  "chain_page a b c = \<lparr>shown = None, milestoneList = chain a b c, stored = []\<rparr>"

text \<open>A milestone whose only dependency names no milestone of its goal.\<close>

definition orphan :: milestone where
  "orphan = \<lparr>mid = ''A'', title = ''Basics'', dependencies = [''gone''], isCompleted = False,
             completedAt = None\<rparr>"

text \<open>
  A goal whose only milestone was completed at time 1, and a further milestone to add.
\<close>

definition finished_goal :: goal where
  "finished_goal =
     \<lparr>status = Completed, progress = 100,
      milestones = [\<lparr>mid = ''m'', title = ''M'', dependencies = [], isCompleted = True,
                     completedAt = Some 1\<rparr>],
      completedMilestones = 1, finishedAt = Some 1\<rparr>"

definition extra :: "ident \<Rightarrow> milestone" where
  "extra i = \<lparr>mid = i, title = ''Extra'', dependencies = [], isCompleted = False,
              completedAt = None\<rparr>"

text \<open>
  Ids of 24 hexadecimal digits. On such a string the validator answers yes and the cast
  yields the ObjectId, whose string form has its letters in lower case; \<open>hex24\<close> and
  \<open>castHex\<close> stand for the two library functions in the concrete instances below, which
  use no other strings.
\<close>

definition hexDigit :: "char \<Rightarrow> bool" where
  "hexDigit c \<longleftrightarrow> c \<in> set ''0123456789abcdefABCDEF''"

definition hex24 :: "string \<Rightarrow> bool" where
  "hex24 s \<longleftrightarrow> length s = 24 \<and> list_all hexDigit s"

definition lowerHex :: "char \<Rightarrow> char" where
  "lowerHex c =
     (if c = CHR ''A'' then CHR ''a'' else if c = CHR ''B'' then CHR ''b''
      else if c = CHR ''C'' then CHR ''c'' else if c = CHR ''D'' then CHR ''d''
      else if c = CHR ''E'' then CHR ''e'' else if c = CHR ''F'' then CHR ''f'' else c)"

definition castHex :: "string \<Rightarrow> ident option" where
  "castHex s = (if hex24 s then Some (map lowerHex s) else None)"

definition hex_goal :: goal where
  "hex_goal =
     \<lparr>status = Active, progress = 0,
      milestones =
        [\<lparr>mid = replicate 24 CHR ''a'', title = ''Basics'', dependencies = [],
          isCompleted = False, completedAt = None\<rparr>,
         \<lparr>mid = replicate 24 CHR ''b'', title = ''Practice'',
          dependencies = [replicate 24 CHR ''a''], isCompleted = False, completedAt = None\<rparr>],
      completedMilestones = 0, finishedAt = None\<rparr>"


section \<open>Properties of the number model\<close>

text \<open>
  Rounding to binary64 is monotone and has a relative error of at most \<open>2\<^sup>-\<^sup>5\<^sup>3\<close>; the
  percentage therefore grows with the number of completed milestones, and differs from the
  exact quotient by far less than its distance from the nearest half, unless it is a half.
\<close>

lemma round_half_even_error: "\<bar>of_int (round_half_even m) - m\<bar> \<le> 1/2"
  unfolding round_half_even_def Let_def by (auto simp: abs_if) linarith+

lemma round_half_even_of_int [simp]: "round_half_even (of_int z) = z"
  by (simp add: round_half_even_def)

lemma round_half_even_mono:
  assumes "a \<le> b"
  shows "round_half_even a \<le> round_half_even b"
proof -
  have fl: "\<lfloor>a\<rfloor> \<le> \<lfloor>b\<rfloor>" using assms by (rule floor_mono)
  have lo: "\<lfloor>b\<rfloor> \<le> round_half_even b" by (simp add: round_half_even_def Let_def)
  have hi: "round_half_even a \<le> \<lfloor>a\<rfloor> + 1" by (simp add: round_half_even_def Let_def)
  show ?thesis
  proof (cases "\<lfloor>a\<rfloor> < \<lfloor>b\<rfloor>")
    case True
    then show ?thesis using lo hi by linarith
  next
    case False
    then have eq: "\<lfloor>a\<rfloor> = \<lfloor>b\<rfloor>" using fl by simp
    show ?thesis using assms unfolding round_half_even_def Let_def eq by auto
  qed
qed

lemma bitlen_rat_bounds:
  assumes "0 < a"
  shows "power_int (2::rat) (bitlen a - 1) \<le> of_int a" and "of_int a < power_int (2::rat) (bitlen a)"
proof -
  have pos: "1 \<le> bitlen a" using assms bitlen_eq_zero_iff [of a] bitlen_nonneg [of a] by linarith
  have lo: "2 ^ nat (bitlen a - 1) \<le> a" and hi: "a < 2 ^ nat (bitlen a)"
    using bitlen_bounds [OF assms] by simp_all
  have "(of_int (2 ^ nat (bitlen a - 1)) :: rat) \<le> of_int a" using lo by (simp only: of_int_le_iff)
  then show "power_int (2::rat) (bitlen a - 1) \<le> of_int a"
    using pos by (simp add: power_int_nonneg_exp)
  have "(of_int a :: rat) < of_int (2 ^ nat (bitlen a))" using hi by (simp only: of_int_less_iff)
  then show "of_int a < power_int (2::rat) (bitlen a)"
    using pos by (simp add: power_int_nonneg_exp)
qed

lemma binade_bounds:
  assumes "0 < x"
  shows "power_int 2 (binade x) \<le> x" and "x < power_int 2 (binade x + 1)"
proof -
  obtain a b where q: "quotient_of x = (a, b)" by (cases "quotient_of x")
  have b: "0 < b" using quotient_of_denom_pos [OF q] .
  have x: "x = of_int a / of_int b" using quotient_of_div [OF q] .
  have a: "0 < a" using assms b x by (simp add: zero_less_divide_iff)
  define d where "d = bitlen a - bitlen b"
  have "x < power_int 2 (bitlen a) / power_int 2 (bitlen b - 1)"
    unfolding x using bitlen_rat_bounds [OF a] bitlen_rat_bounds [OF b] a b
    by (intro frac_less) simp_all
  also have "\<dots> = power_int 2 (d + 1)"
    by (simp add: d_def power_int_diff [symmetric] algebra_simps)
  finally have up: "x < power_int 2 (d + 1)" .
  have "power_int 2 (bitlen a - 1) / power_int 2 (bitlen b) \<le> x"
    unfolding x using bitlen_rat_bounds [OF a] bitlen_rat_bounds [OF b] a b
    by (intro frac_le) simp_all
  moreover have "power_int (2::rat) (bitlen a - 1) / power_int 2 (bitlen b) = power_int 2 (d - 1)"
    by (simp add: d_def power_int_diff [symmetric] algebra_simps)
  ultimately have lo: "power_int 2 (d - 1) \<le> x" by simp
  have bin: "binade x = (if power_int 2 d \<le> x then d else d - 1)"
    by (simp add: binade_def q d_def)
  show "power_int 2 (binade x) \<le> x" using lo by (simp add: bin)
  show "x < power_int 2 (binade x + 1)" using up by (simp add: bin)
qed


lemma ulp_split: "power_int (2::rat) (e - 52) = power_int 2 e / 2 ^ 52"
  by (simp add: power_int_diff)

lemma fl64_pos_eq:
  "0 < x \<Longrightarrow> fl64 x =
     of_int (round_half_even (x / power_int 2 (binade x - 52))) * power_int 2 (binade x - 52)"
  by (simp add: fl64_def Let_def)

lemma significand_bounds:
  assumes "0 < x"
  shows "2 ^ 52 \<le> x / power_int 2 (binade x - 52)" and "x / power_int 2 (binade x - 52) < 2 ^ 53"
proof -
  define p where "p = power_int (2::rat) (binade x)"
  have p: "0 < p" by (simp add: p_def)
  have lo: "p \<le> x" and hi: "x < 2 * p"
    using binade_bounds [OF assms] by (simp_all add: p_def power_int_add)
  have eq: "x / power_int 2 (binade x - 52) = x / p * 2 ^ 52"
    by (simp add: ulp_split p_def)
  have "1 \<le> x / p" using lo p by (simp add: field_simps)
  then have "1 * 2 ^ 52 \<le> x / p * 2 ^ 52" by (intro mult_right_mono) simp_all
  then show "2 ^ 52 \<le> x / power_int 2 (binade x - 52)" unfolding eq by simp
  have "x / p < 2" using hi p by (simp add: field_simps)
  then have "x / p * 2 ^ 52 < 2 * 2 ^ 52" by (intro mult_strict_right_mono) simp_all
  then show "x / power_int 2 (binade x - 52) < 2 ^ 53" unfolding eq by simp
qed

lemma fl64_error:
  assumes "0 < x"
  shows "\<bar>fl64 x - x\<bar> \<le> x / 2 ^ 53"
proof -
  define u where "u = power_int (2::rat) (binade x - 52)"
  define m where "m = x / u"
  have u: "0 < u" by (simp add: u_def)
  have mu: "m * u = x" using u by (simp add: m_def)
  have f: "fl64 x = of_int (round_half_even m) * u"
    using assms by (simp add: fl64_pos_eq u_def m_def)
  have "fl64 x - x = of_int (round_half_even m) * u - m * u"
    by (simp only: f mu)
  also have "\<dots> = (of_int (round_half_even m) - m) * u"
    by (simp add: algebra_simps)
  finally have "\<bar>fl64 x - x\<bar> = \<bar>of_int (round_half_even m) - m\<bar> * u"
    using u by (simp add: abs_mult)
  also have "\<dots> \<le> 1 / 2 * u"
    using round_half_even_error [of m] u by (intro mult_right_mono) simp_all
  also have "\<dots> = power_int 2 (binade x) / 2 ^ 53"
    by (simp add: u_def ulp_split)
  also have "\<dots> \<le> x / 2 ^ 53"
    using binade_bounds(1) [OF assms] by (simp add: divide_right_mono)
  finally show ?thesis .
qed

lemma fl64_binade_bounds:
  assumes "0 < x"
  shows "power_int 2 (binade x) \<le> fl64 x" and "fl64 x \<le> power_int 2 (binade x + 1)"
proof -
  define u where "u = power_int (2::rat) (binade x - 52)"
  define m where "m = x / u"
  have u: "0 < u" by (simp add: u_def)
  have f: "fl64 x = of_int (round_half_even m) * u"
    using assms by (simp add: fl64_pos_eq u_def m_def)
  have "round_half_even (of_int (2 ^ 52)) \<le> round_half_even m"
    using significand_bounds(1) [OF assms] by (intro round_half_even_mono) (simp add: m_def u_def)
  then have "(2 ^ 52 :: rat) \<le> of_int (round_half_even m)"
    by (simp only: round_half_even_of_int) (metis of_int_le_iff of_int_numeral of_int_power)
  then have "2 ^ 52 * u \<le> fl64 x" unfolding f using u by (intro mult_right_mono) simp_all
  then show "power_int 2 (binade x) \<le> fl64 x" by (simp add: u_def ulp_split)
  have "round_half_even m \<le> round_half_even (of_int (2 ^ 53))"
    using significand_bounds(2) [OF assms] by (intro round_half_even_mono) (simp add: m_def u_def)
  then have "of_int (round_half_even m) \<le> (2 ^ 53 :: rat)"
    by (simp only: round_half_even_of_int) (metis of_int_le_iff of_int_numeral of_int_power)
  then have "fl64 x \<le> 2 ^ 53 * u" unfolding f using u by (intro mult_right_mono) simp_all
  then show "fl64 x \<le> power_int 2 (binade x + 1)" by (simp add: u_def ulp_split power_int_add)
qed

lemma fl64_zero [simp]: "fl64 0 = 0"
  by (simp add: fl64_def)

lemma fl64_pos: "0 < x \<Longrightarrow> 0 < fl64 x"
  using fl64_binade_bounds(1) [of x] by (meson less_le_trans zero_less_numeral zero_less_power_int)

lemma binade_mono:
  assumes "0 < x" "x \<le> y"
  shows "binade x \<le> binade y"
proof -
  have lt: "power_int (2::rat) (binade x) < power_int 2 (binade y + 1)"
    using binade_bounds(1) [OF assms(1)] binade_bounds(2) [of y] assms by linarith
  have "binade x < binade y + 1"
  proof (rule ccontr)
    assume "\<not> binade x < binade y + 1"
    then have "binade y + 1 \<le> binade x" by simp
    then have "power_int (2::rat) (binade y + 1) \<le> power_int 2 (binade x)"
      by (simp add: power_int_increasing)
    with lt show False by simp
  qed
  then show ?thesis by simp
qed

lemma fl64_mono:
  assumes "0 \<le> x" "x \<le> y"
  shows "fl64 x \<le> fl64 y"
proof (cases "x = 0")
  case True
  then show ?thesis using assms fl64_pos [of y] by (cases "y = 0") (simp_all add: less_imp_le)
next
  case False
  then have x: "0 < x" and y: "0 < y" using assms by simp_all
  show ?thesis
  proof (cases "binade x = binade y")
    case True
    have "x / power_int 2 (binade y - 52) \<le> y / power_int 2 (binade y - 52)"
      using assms by (simp add: divide_right_mono)
    then have "round_half_even (x / power_int 2 (binade y - 52))
        \<le> round_half_even (y / power_int 2 (binade y - 52))"
      by (rule round_half_even_mono)
    then show ?thesis
      using x y by (simp add: fl64_pos_eq True mult_right_mono)
  next
    case False
    then have "binade x + 1 \<le> binade y" using binade_mono [OF x assms(2)] by simp
    then have "power_int (2::rat) (binade x + 1) \<le> power_int 2 (binade y)"
      by (simp add: power_int_increasing)
    then show ?thesis
      using fl64_binade_bounds(2) [OF x] fl64_binade_bounds(1) [OF y] by linarith
  qed
qed


lemma Math_round_mono: "x \<le> y \<Longrightarrow> Math_round x \<le> Math_round y"
  by (simp add: Math_round_def floor_mono)

lemma jsPercent_mono:
  assumes "k \<le> k'"
  shows "jsPercent k n \<le> jsPercent k' n"
proof -
  have "(of_nat k / of_nat n :: rat) \<le> of_nat k' / of_nat n"
    using assms by (simp add: divide_right_mono)
  then have "fl64 (of_nat k / of_nat n) \<le> fl64 (of_nat k' / of_nat n)"
    by (intro fl64_mono) simp_all
  then have "fl64 (fl64 (of_nat k / of_nat n) * 100) \<le> fl64 (fl64 (of_nat k' / of_nat n) * 100)"
    using fl64_mono [of 0 "of_nat k / of_nat n"] by (intro fl64_mono) simp_all
  then show ?thesis unfolding jsPercent_def by (rule Math_round_mono)
qed

lemma fl64_1: "fl64 1 = 1"
  by code_simp

lemma fl64_100: "fl64 100 = 100"
  by code_simp

lemma Math_round_0: "Math_round 0 = 0"
  by code_simp

lemma Math_round_100: "Math_round 100 = 100"
  by code_simp

lemma jsPercent_zero [simp]: "jsPercent 0 n = 0"
  by (simp add: jsPercent_def Math_round_0)

lemma jsPercent_all: "0 < n \<Longrightarrow> jsPercent n n = 100"
  by (simp add: jsPercent_def Math_round_100 fl64_1 fl64_100)

lemma jsPercent_range:
  assumes "k \<le> n"
  shows "0 \<le> jsPercent k n" and "jsPercent k n \<le> 100"
proof -
  show "0 \<le> jsPercent k n" using jsPercent_mono [of 0 k n] by simp
  show "jsPercent k n \<le> 100"
  proof (cases "n = 0")
    case True
    then show ?thesis using assms by simp
  next
    case False
    then show ?thesis using jsPercent_mono [OF assms, of n] jsPercent_all [of n] by simp
  qed
qed

lemma jsPercent_error:
  assumes "0 < k" "k \<le> n"
  shows "\<bar>fl64 (fl64 (of_nat k / of_nat n) * 100) - 100 * of_nat k / of_nat n\<bar> \<le> 300 / 2 ^ 53"
proof -
  define x :: rat where "x = of_nat k / of_nat n"
  define q where "q = fl64 x"
  define p where "p = fl64 (q * 100)"
  have x0: "0 < x" using assms by (simp add: x_def)
  have x1: "x \<le> 1" using assms by (simp add: x_def)
  have q0: "0 < q" unfolding q_def using x0 by (rule fl64_pos)
  have eq: "\<bar>q - x\<bar> \<le> x / 2 ^ 53" unfolding q_def using x0 by (rule fl64_error)
  have ep: "\<bar>p - q * 100\<bar> \<le> q * 100 / 2 ^ 53" unfolding p_def using q0 by (intro fl64_error) simp
  have c: "(2::rat) ^ 53 = 9007199254740992" by simp
  have "\<bar>p - 100 * x\<bar> \<le> 300 / 2 ^ 53"
    using eq ep x0 x1 q0 unfolding c by linarith
  then show ?thesis by (simp add: p_def q_def x_def)
qed

lemma jsPercent_exact:
  assumes n: "0 < n" "n < 2 ^ 32" and k: "k \<le> n"
    and nh: "frac (100 * of_nat k / of_nat n :: rat) \<noteq> 1 / 2"
  shows "jsPercent k n = \<lfloor>100 * of_nat k / of_nat n + 1 / 2 :: rat\<rfloor>"
proof (cases "k = 0")
  case True
  have "\<lfloor>1 / 2 :: rat\<rfloor> = 0" using Math_round_0 by (simp add: Math_round_def)
  then show ?thesis using True by simp
next
  case False
  define y :: rat where "y = 100 * of_nat k / of_nat n"
  define p where "p = fl64 (fl64 (of_nat k / of_nat n) * 100)"
  define N :: int where "N = int (200 * k + n)"
  define D :: int where "D = int (2 * n)"
  have D: "0 < D" "D < 2 ^ 33" using n by (simp_all add: D_def)
  have yND: "y + 1 / 2 = of_int N / of_int D"
    using n by (simp add: y_def N_def D_def field_simps)
  have err: "\<bar>p - y\<bar> \<le> 300 / 2 ^ 53"
    unfolding p_def y_def using False k by (intro jsPercent_error) simp_all
  have nz: "N mod D \<noteq> 0"
  proof
    assume "N mod D = 0"
    then have "N = D * (N div D)" by auto
    then have "(of_int N :: rat) = of_int D * of_int (N div D)" by (metis of_int_mult)
    then have "y + 1 / 2 = of_int (N div D)" unfolding yND using D by simp
    then have "y - 1 / 2 = of_int (N div D - 1)" by simp
    then have "y - 1 / 2 \<in> \<int>" by (metis Ints_of_int)
    then have "frac y = 1 / 2" unfolding frac_unique_iff by simp
    with nh show False by (simp add: y_def)
  qed
  define s :: rat where "s = of_int (N mod D) / of_int D"
  have m1: "1 \<le> N mod D" using nz D pos_mod_sign [of D N] by linarith
  have m2: "N mod D \<le> D - 1" using D pos_mod_bound [of D N] by linarith
  have split: "y + 1 / 2 = of_int (N div D) + s"
  proof -
    have "N = D * (N div D) + N mod D" by simp
    then have "(of_int N :: rat) = of_int D * of_int (N div D) + of_int (N mod D)"
      by (metis of_int_add of_int_mult)
    then show ?thesis unfolding yND s_def using D by (simp add: field_simps)
  qed
  have Dr: "(of_int D :: rat) < 2 ^ 33" using D by (metis of_int_less_iff of_int_numeral of_int_power)
  have D0: "(0::rat) < of_int D" using D by simp
  have "(of_int 1 :: rat) \<le> of_int (N mod D)" using m1 by (simp only: of_int_le_iff)
  then have s1: "1 / of_int D \<le> s" unfolding s_def using D0 by (intro divide_right_mono) simp_all
  have s2: "s \<le> 1 - 1 / of_int D"
  proof -
    have "(of_int (N mod D) :: rat) \<le> of_int (D - 1)" using m2 by (simp only: of_int_le_iff)
    then have "s \<le> of_int (D - 1) / of_int D" unfolding s_def using D0 by (intro divide_right_mono) simp_all
    also have "\<dots> = 1 - 1 / of_int D" using D0 by (simp add: field_simps)
    finally show ?thesis .
  qed
  have small: "(300 / 2 ^ 53 :: rat) < 1 / of_int D"
  proof -
    have "(300 / 2 ^ 53 :: rat) < 1 / 2 ^ 33" by simp
    also have "\<dots> < 1 / of_int D" using Dr D0 by (simp add: frac_less2)
    finally show ?thesis .
  qed
  have c: "(2::rat) ^ 53 = 9007199254740992" by simp
  have "\<lfloor>p + 1 / 2\<rfloor> = N div D"
  proof (rule floor_unique)
    show "of_int (N div D) \<le> p + 1 / 2" using err split s1 small unfolding c by linarith
    show "p + 1 / 2 < of_int (N div D) + 1" using err split s2 small unfolding c by linarith
  qed
  moreover have "\<lfloor>y + 1 / 2\<rfloor> = N div D"
    unfolding yND by (rule floor_divide_of_int_eq)
  ultimately show ?thesis by (simp add: jsPercent_def Math_round_def p_def y_def)
qed

lemma binade_unique:
  assumes "power_int 2 e \<le> x" "x < power_int 2 (e + 1)"
  shows "binade x = e"
proof -
  have x: "0 < x" using assms(1) by (meson less_le_trans zero_less_numeral zero_less_power_int)
  have a: "binade x < e + 1"
  proof (rule ccontr)
    assume "\<not> binade x < e + 1"
    then have "e + 1 \<le> binade x" by simp
    then have "power_int (2::rat) (e + 1) \<le> power_int 2 (binade x)"
      by (simp add: power_int_increasing)
    with binade_bounds(1) [OF x] assms(2) show False by linarith
  qed
  have b: "e < binade x + 1"
  proof (rule ccontr)
    assume "\<not> e < binade x + 1"
    then have "binade x + 1 \<le> e" by simp
    then have "power_int (2::rat) (binade x + 1) \<le> power_int 2 e"
      by (simp add: power_int_increasing)
    with binade_bounds(2) [OF x] assms(1) show False by linarith
  qed
  from a b show ?thesis by simp
qed

lemma floor_rat_numeral:
  "\<lfloor>numeral a / numeral b :: rat\<rfloor> = numeral a div numeral b"
  using floor_divide_of_int_eq [of "numeral a" "numeral b", where ?'a = rat] by simp

lemma binade_step:
  assumes "0 < x"
  shows "binade x = (if x < 1 then binade (2 * x) - 1 else if 2 \<le> x then binade (x / 2) + 1 else 0)"
proof -
  have b: "power_int 2 (binade x) \<le> x" "x < power_int 2 (binade x + 1)"
    using binade_bounds [OF assms] .
  have p1: "power_int (2::rat) (binade x + 1) = 2 * power_int 2 (binade x)"
    by (simp add: power_int_add)
  have p2: "power_int (2::rat) (binade x + 1 + 1) = 2 * (2 * power_int 2 (binade x))"
    by (simp add: power_int_add)
  have p3: "power_int (2::rat) (binade x - 1) = power_int 2 (binade x) / 2"
    by (simp add: power_int_diff)
  have p4: "power_int (2::rat) (binade x - 1 + 1) = power_int 2 (binade x)"
    by simp
  have dbl: "binade (2 * x) = binade x + 1"
    using b unfolding p1 by (intro binade_unique; unfold p1 p2) linarith+
  have hlv: "binade (x / 2) = binade x - 1"
    using b unfolding p1 by (intro binade_unique; unfold p3 p4) linarith+
  have one: "1 \<le> x \<Longrightarrow> x < 2 \<Longrightarrow> binade x = 0"
    by (intro binade_unique) simp_all
  show ?thesis using dbl hlv one by auto
qed

lemmas fl64_eval = jsPercent_def Math_round_def fl64_def Let_def round_half_even_def
  floor_rat_numeral binade_step

text \<open>
  Three values for comparison with any IEEE 754 implementation: the binary64 number nearest
  to one tenth, and two ties, which go to the even significand.
\<close>

lemma fl64_examples:
  "fl64 (1 / 10) = 3602879701896397 / 36028797018963968"
  "fl64 (2 ^ 53 + 1) = 2 ^ 53"
  "fl64 (2 ^ 53 + 3) = 2 ^ 53 + 4"
  by (simp_all add: fl64_eval)

text \<open>
  The ratios \<open>(2 * j + 1) / 200\<close> are the ones whose percentage is exactly half-way between
  two integers. All but four of them come out as rounding half up demands.
\<close>

lemma halfway_table:
  "list_all (\<lambda>j. jsPercent (2 * j + 1) 200 = (if j \<in> set [14, 28, 56, 57] then int j else int j + 1))
     [0..<100]"
  by (simp add: upt_rec_numeral upt_conv_Cons) (simp add: fl64_eval)

lemma jsPercent_ratio:
  "(of_nat k / of_nat n :: rat) = of_nat k' / of_nat n' \<Longrightarrow> jsPercent k n = jsPercent k' n'"
  by (simp add: jsPercent_def)

lemma jsPercent_halfway:
  assumes n: "0 < n" and k: "k \<le> n"
    and h: "frac (100 * of_nat k / of_nat n :: rat) = 1 / 2"
  shows "jsPercent k n =
     (if (of_nat k / of_nat n :: rat) \<in> {29 / 200, 57 / 200, 113 / 200, 23 / 40}
      then spec_progress k n - 1 else spec_progress k n)"
proof -
  define y :: rat where "y = 100 * of_nat k / of_nat n"
  define j where "j = nat \<lfloor>y\<rfloor>"
  have y0: "0 \<le> y" by (simp add: y_def)
  have "(of_nat k :: rat) \<le> of_nat n" using k by simp
  then have "(of_nat k / of_nat n :: rat) \<le> 1" using n by (simp add: divide_le_eq_1)
  then have y100: "y \<le> 100" by (simp add: y_def)
  have fl: "of_int \<lfloor>y\<rfloor> = (of_nat j :: rat)" using y0 by (simp add: j_def)
  have yj: "y = of_nat j + 1 / 2"
    using h fl unfolding y_def [symmetric] frac_def by simp
  have j: "j < 100"
  proof -
    have "(of_nat j :: rat) < of_nat 100" using yj y100 by simp
    then show ?thesis by (simp only: of_nat_less_iff)
  qed
  have ratio: "(of_nat k / of_nat n :: rat) = of_nat (2 * j + 1) / of_nat 200"
    using yj n by (simp add: y_def field_simps)
  have js: "jsPercent k n = jsPercent (2 * j + 1) 200"
    using ratio by (rule jsPercent_ratio)
  have all: "\<forall>j\<in>set [0..<100]. jsPercent (2 * j + 1) 200
      = (if j \<in> set [14, 28, 56, 57] then int j else int j + 1)"
    using halfway_table unfolding list_all_iff .
  have mem: "j \<in> set [0..<100]" using j by simp
  have table: "jsPercent (2 * j + 1) 200 = (if j \<in> set [14, 28, 56, 57] then int j else int j + 1)"
    using all mem by (rule bspec)
  have "\<lfloor>y + 1 / 2\<rfloor> = int j + 1"
  proof -
    have "y + 1 / 2 = of_int (int j + 1)" using yj by simp
    then show ?thesis by (metis floor_of_int)
  qed
  then have spec: "spec_progress k n = int j + 1"
    using n by (simp add: spec_progress_def y_def)
  have r: "(of_nat k / of_nat n :: rat) = of_nat j / 100 + 1 / 200"
    using ratio by (simp add: field_simps)
  have c: "(of_nat j :: rat) = of_nat m \<longleftrightarrow> j = m" for m by (rule of_nat_eq_iff)
  have bad: "(of_nat k / of_nat n :: rat) \<in> {29 / 200, 57 / 200, 113 / 200, 23 / 40}
      \<longleftrightarrow> j \<in> set [14, 28, 56, 57]"
    unfolding r using c [of 14] c [of 28] c [of 56] c [of 57] by (simp add: field_simps) 
  show ?thesis unfolding js table spec bad by simp
qed

lemma jsPercent_spec:
  assumes "0 < n" "n < 2 ^ 32" "k \<le> n"
    and "(of_nat k / of_nat n :: rat) \<notin> {29 / 200, 57 / 200, 113 / 200, 23 / 40}"
  shows "jsPercent k n = spec_progress k n"
proof (cases "frac (100 * of_nat k / of_nat n :: rat) = 1 / 2")
  case True
  then show ?thesis using jsPercent_halfway [OF assms(1) assms(3) True] assms(4) by simp
next
  case False
  then show ?thesis using jsPercent_exact [OF assms(1) assms(2) assms(3) False] assms(1)
    by (simp add: spec_progress_def)
qed

lemma jsPercent_mono_ratio:
  assumes "(of_nat k / of_nat n :: rat) \<le> of_nat k' / of_nat n'"
  shows "jsPercent k n \<le> jsPercent k' n'"
proof -
  have "fl64 (of_nat k / of_nat n) \<le> fl64 (of_nat k' / of_nat n')"
    using assms by (intro fl64_mono) simp_all
  then have "fl64 (fl64 (of_nat k / of_nat n) * 100) \<le> fl64 (fl64 (of_nat k' / of_nat n') * 100)"
    using fl64_mono [of 0 "of_nat k / of_nat n"] by (intro fl64_mono) simp_all
  then show ?thesis unfolding jsPercent_def by (rule Math_round_mono)
qed

lemma jsPercent_below_100:
  assumes "k < n" "n < 200"
  shows "jsPercent k n < 100"
proof -
  have "199 * k \<le> 198 * n" using assms by simp
  then have "(of_nat (199 * k) :: rat) \<le> of_nat (198 * n)" by (simp only: of_nat_le_iff)
  then have "(of_nat k / of_nat n :: rat) \<le> of_nat 198 / of_nat 199"
    using assms by (simp add: field_simps)
  then have "jsPercent k n \<le> jsPercent 198 199" by (rule jsPercent_mono_ratio)
  also have "jsPercent 198 199 = 99" by (simp add: fl64_eval)
  finally show ?thesis by simp
qed

lemma jsPercent_early_100:
  assumes "200 \<le> n"
  shows "jsPercent (n - 1) n = 100"
proof -
  have "199 * n \<le> 200 * (n - 1)" using assms by simp
  then have "(of_nat (199 * n) :: rat) \<le> of_nat (200 * (n - 1))" by (simp only: of_nat_le_iff)
  then have "(of_nat 199 / of_nat 200 :: rat) \<le> of_nat (n - 1) / of_nat n"
    using assms by (simp add: field_simps)
  then have "jsPercent 199 200 \<le> jsPercent (n - 1) n" by (rule jsPercent_mono_ratio)
  moreover have "jsPercent 199 200 = 100" by (simp add: fl64_eval)
  moreover have "jsPercent (n - 1) n \<le> 100" by (intro jsPercent_range) simp
  ultimately show ?thesis by simp
qed

lemma all_completed_iff:
  "length (filter P xs) = length xs \<longleftrightarrow> (\<forall>x\<in>set xs. P x)"
proof (induction xs)
  case Nil
  show ?case by simp
next
  case (Cons x xs)
  have le: "length (filter P xs) \<le> length xs" by (rule length_filter_le)
  show ?case
  proof (cases "P x")
    case True
    then show ?thesis using Cons by simp
  next
    case False
    then have "length (filter P (x # xs)) \<noteq> length (x # xs)"
      using le by (simp del: length_filter_le)
    then show ?thesis using False by auto
  qed
qed

lemma jsPercent_100_iff:
  assumes "0 < n" "n < 200" "k \<le> n"
  shows "jsPercent k n = 100 \<longleftrightarrow> k = n"
  using assms jsPercent_below_100 [of k n] jsPercent_all [of n] by (cases "k = n") auto

section \<open>The sample goals\<close>

lemma length_sample_milestones [simp]: "length (sample_milestones k n) = n"
  by (simp add: sample_milestones_def)

lemma count_below: "length (filter (\<lambda>i. i < k) [0..<n]) = min k n"
  by (induction n) auto

lemma completed_sample_milestones [simp]:
  "length (filter isCompleted (sample_milestones k n)) = min k n"
  by (simp add: sample_milestones_def filter_map comp_def count_below)

lemma sample_milestones_Nil [simp]: "sample_milestones k n = [] \<longleftrightarrow> n = 0"
  by (simp add: sample_milestones_def)

lemma distinct_sample_milestones: "distinct (map mid (sample_milestones k n))"
  by (simp add: sample_milestones_def comp_def distinct_map inj_on_def)

section \<open>Progress recomputation on the server\<close>

lemma milestones_updateProgress [simp]: "milestones (updateProgress now g) = milestones g"
  by (simp add: updateProgress_def Let_def)

lemma completedMilestones_updateProgress:
  "completedMilestones (updateProgress now g) = length (filter isCompleted (milestones g))"
  by (simp add: updateProgress_def Let_def)

lemma progress_updateProgress:
  "progress (updateProgress now g) =
     (if milestones g = [] then 0
      else jsPercent (length (filter isCompleted (milestones g))) (length (milestones g)))"
  by (simp add: updateProgress_def Let_def)

lemma status_updateProgress:
  "status (updateProgress now g) =
     (if progress (updateProgress now g) = 100 \<and> status g \<noteq> Completed then Completed
      else if 0 < progress (updateProgress now g) \<and> status g = Planning then Active
      else status g)"
  unfolding updateProgress_def Let_def by (cases "status g") simp_all

lemma finishedAt_updateProgress:
  "finishedAt (updateProgress now g) =
     (if progress (updateProgress now g) = 100 \<and> status g \<noteq> Completed then Some now
      else finishedAt g)"
  unfolding updateProgress_def Let_def by (cases "status g") simp_all

lemma updateProgress_fields:
  "updateProgress now g =
     g\<lparr>completedMilestones := length (filter isCompleted (milestones g)),
       progress := progress (updateProgress now g),
       status := status (updateProgress now g),
       finishedAt := finishedAt (updateProgress now g)\<rparr>"
  unfolding updateProgress_def Let_def by (cases "status g") simp_all

lemma progress_updateProgress_range:
  "0 \<le> progress (updateProgress now g)" "progress (updateProgress now g) \<le> 100"
  using jsPercent_range [of "length (filter isCompleted (milestones g))" "length (milestones g)"]
  by (simp_all add: progress_updateProgress)

text \<open>
  C6. Recomputing the progress of a goal whose progress was just recomputed changes nothing:
  the progress, the counter of completed milestones, the status and the completion timestamp
  all stay as the first call left them, whatever the time of the second call.
\<close>

theorem updateProgress_idempotent:
  "updateProgress later (updateProgress now g) = updateProgress now g"
proof -
  let ?g = "updateProgress now g"
  have p: "progress (updateProgress later ?g) = progress ?g"
    by (simp add: progress_updateProgress)
  have s: "status (updateProgress later ?g) = status ?g"
    unfolding status_updateProgress [of later ?g] p
    unfolding status_updateProgress [of now g] by (cases "status g") simp_all
  have f: "finishedAt (updateProgress later ?g) = finishedAt ?g"
    unfolding finishedAt_updateProgress [of later ?g] p
    unfolding status_updateProgress [of now g] by (cases "status g") simp_all
  have c: "length (filter isCompleted (milestones g)) = completedMilestones ?g"
    by (simp add: completedMilestones_updateProgress)
  show ?thesis
    by (subst updateProgress_fields [of later ?g]) (simp add: p s f c)
qed

lemma updateProgress_one_done:
  "updateProgress 5
       \<lparr>status = Planning, progress = 0,
        milestones = [\<lparr>mid = ''a'', title = ''A'', dependencies = [], isCompleted = True,
                       completedAt = Some 4\<rparr>],
        completedMilestones = 0, finishedAt = None\<rparr>
   = \<lparr>status = Completed, progress = 100,
      milestones = [\<lparr>mid = ''a'', title = ''A'', dependencies = [], isCompleted = True,
                     completedAt = Some 4\<rparr>],
      completedMilestones = 1, finishedAt = Some 5\<rparr>"
  by (simp add: updateProgress_def Let_def jsPercent_all)

theorem updateProgress_idempotent_witness:
  "updateProgress 9 (updateProgress 5
       \<lparr>status = Planning, progress = 0,
        milestones = [\<lparr>mid = ''a'', title = ''A'', dependencies = [], isCompleted = True,
                       completedAt = Some 4\<rparr>],
        completedMilestones = 0, finishedAt = None\<rparr>)
   = \<lparr>status = Completed, progress = 100,
      milestones = [\<lparr>mid = ''a'', title = ''A'', dependencies = [], isCompleted = True,
                     completedAt = Some 4\<rparr>],
      completedMilestones = 1, finishedAt = Some 5\<rparr>"
  unfolding updateProgress_idempotent by (rule updateProgress_one_done)


section \<open>The page never touches the status\<close>

lemma sg_status_persistGoal [simp]: "sg_status (persistGoal goalId ms g) = sg_status g"
  by (simp add: persistGoal_def)

lemma sg_status_persistMilestones:
  "map sg_status (persistMilestones goalId ms gs) = map sg_status gs"
  by (simp add: persistMilestones_def)

lemma toggleMilestone_status:
  "map sg_status (stored (snd (toggleMilestone goalId pg index))) = map sg_status (stored pg)"
  "map_option pg_status (shown (snd (toggleMilestone goalId pg index))) = map_option pg_status (shown pg)"
  by (simp_all add: toggleMilestone_def Let_def sg_status_persistMilestones option.map_comp comp_def)

text \<open>
  C9. A goal whose status is completed keeps that status through every later recomputation,
  whatever has happened to its milestones in between (one of them reverted to incomplete,
  for instance) and whatever the recomputed progress is. In the page, toggling a milestone
  recomputes the progress and changes no status at all, neither of the goal shown nor of a
  stored goal.
\<close>

theorem completed_is_kept:
  "(status g = Completed \<longrightarrow> status (updateProgress now (g\<lparr>milestones := ms\<rparr>)) = Completed)
   \<and> map sg_status (stored (snd (toggleMilestone goalId pg index))) = map sg_status (stored pg)
   \<and> map_option pg_status (shown (snd (toggleMilestone goalId pg index)))
       = map_option pg_status (shown pg)"
  by (simp add: status_updateProgress toggleMilestone_status)

theorem completed_is_kept_witness:
  "status \<lparr>status = Completed, progress = 100, milestones = [],
           completedMilestones = 1, finishedAt = Some 5\<rparr> = Completed
   \<and> status (updateProgress 9
       \<lparr>status = Completed, progress = 100,
        milestones = [\<lparr>mid = ''a'', title = ''A'', dependencies = [], isCompleted = False,
                       completedAt = Some 4\<rparr>],
        completedMilestones = 1, finishedAt = Some 5\<rparr>) = Completed
   \<and> progress (updateProgress 9
       \<lparr>status = Completed, progress = 100,
        milestones = [\<lparr>mid = ''a'', title = ''A'', dependencies = [], isCompleted = False,
                       completedAt = Some 4\<rparr>],
        completedMilestones = 1, finishedAt = Some 5\<rparr>) = 0"
  using completed_is_kept [of "\<lparr>status = Completed, progress = 100,
        milestones = [], completedMilestones = 1, finishedAt = Some 5\<rparr>" 9
        "[\<lparr>mid = ''a'', title = ''A'', dependencies = [], isCompleted = False,
                       completedAt = Some 4\<rparr>]"]
  by (simp add: progress_updateProgress)

section \<open>The progress formula and the status transitions\<close>

text \<open>
  Where the two computations agree with the specification's formula: for every goal with
  \<open>n\<close> milestones, \<open>k\<close> of them completed, unless \<open>k / n\<close> is one of 29/200, 57/200, 113/200
  and 23/40. The stored counter is \<open>k\<close>.
\<close>

lemma progress_formula_elsewhere:
  assumes "n = length (milestones g)"
    and "k = length (filter isCompleted (milestones g))"
    and "n < 2 ^ 32"
    and "(of_nat k / of_nat n :: rat) \<notin> {29 / 200, 57 / 200, 113 / 200, 23 / 40}"
  shows "progress (updateProgress now g) = spec_progress k n
       \<and> (n = 0 \<longrightarrow> progress (updateProgress now g) = 0)
       \<and> completedMilestones (updateProgress now g) = k
       \<and> (sg_id sg = goalId \<and> 0 < n \<longrightarrow>
            sg_progress (persistGoal goalId (milestones g) sg) = JNum (of_int (spec_progress k n)))"
proof (cases "n = 0")
  case True
  then show ?thesis using assms(1,2)
    by (simp add: progress_updateProgress completedMilestones_updateProgress spec_progress_def)
next
  case False
  have "k \<le> n" unfolding assms(1,2) by (rule length_filter_le)
  then have js: "jsPercent k n = spec_progress k n"
    using False assms(3,4) by (intro jsPercent_spec) simp_all
  have ne: "milestones g \<noteq> []" using False assms(1) by auto
  show ?thesis using False ne js assms(1,2)
    by (simp add: progress_updateProgress completedMilestones_updateProgress persistGoal_def)
qed

lemma progress_3_of_8:
  "progress (updateProgress 7 (sample_goal Active 3 8)) = 38
   \<and> completedMilestones (updateProgress 7 (sample_goal Active 3 8)) = 3
   \<and> sg_progress (persistGoal ''g1'' (sample_milestones 3 8) (sample_stored (JStr ''active'') (JNum 25)))
       = JNum 38"
proof -
  have s: "spec_progress 3 8 = 38" by (simp add: spec_progress_def)
  show ?thesis
    using progress_formula_elsewhere [of 8 "sample_goal Active 3 8" 3 7
        "sample_stored (JStr ''active'') (JNum 25)" "''g1''"]
    by (simp add: sample_goal_def sample_stored_def s)
qed

text \<open>
  C1. With 23 of 40 milestones completed the percentage is 57.5, which rounded half up is
  58. \<open>updateProgress\<close> stores 57, and so does the page's \<open>persistMilestones\<close>: 23/40 is not
  a binary64 number, and the product of the nearest one with 100 is rounded to a number just
  below 57.5.
\<close>

theorem progress_23_of_40:
  "progress (updateProgress 7 (sample_goal Active 23 40)) = 57
   \<and> sg_progress (persistGoal ''g1'' (sample_milestones 23 40)
        (sample_stored (JStr ''active'') (JNum 55))) = JNum 57
   \<and> spec_progress 23 40 = 58
   \<and> fl64 (fl64 (23 / 40) * 100) = 8092405580431359 / 140737488355328
   \<and> (8092405580431359 / 140737488355328 :: rat) < 115 / 2"
proof -
  have s: "spec_progress 23 40 = 58" by (simp add: spec_progress_def floor_rat_numeral)
  have j: "jsPercent 23 40 = 57" by (simp add: fl64_eval)
  have f: "fl64 (fl64 (23 / 40) * 100) = 8092405580431359 / 140737488355328"
    by (simp add: fl64_eval)
  show ?thesis
    by (simp add: progress_updateProgress sample_goal_def sample_stored_def persistGoal_def s j f)
qed

text \<open>
  C5 (as amended). \<open>updateProgress\<close> changes the status in exactly two ways: to completed,
  with the completion time stamped, when the recomputed progress is 100 and the status is not
  completed yet; otherwise to active, when the progress is positive and the status was
  planning. A progress of 100 needs a milestone. For a goal with fewer than 200 milestones,
  the progress is 100 exactly when there is a milestone and all are completed, so that such
  a goal becomes completed in the very call that finds its last milestone completed. The
  page's \<open>persistMilestones\<close> leaves the stored status alone.
\<close>

theorem status_transitions:
  "status (updateProgress now g) =
     (if progress (updateProgress now g) = 100 \<and> status g \<noteq> Completed then Completed
      else if 0 < progress (updateProgress now g) \<and> status g = Planning then Active
      else status g)
   \<and> finishedAt (updateProgress now g) =
     (if progress (updateProgress now g) = 100 \<and> status g \<noteq> Completed then Some now
      else finishedAt g)
   \<and> (progress (updateProgress now g) = 100 \<longrightarrow> milestones g \<noteq> [])
   \<and> (length (milestones g) < 200 \<longrightarrow>
        (progress (updateProgress now g) = 100
           \<longleftrightarrow> milestones g \<noteq> [] \<and> (\<forall>m\<in>set (milestones g). isCompleted m)))
   \<and> (length (milestones g) < 200 \<and> status g \<noteq> Completed \<longrightarrow>
        (status (updateProgress now g) = Completed
           \<longleftrightarrow> milestones g \<noteq> [] \<and> (\<forall>m\<in>set (milestones g). isCompleted m)))
   \<and> sg_status (persistGoal goalId ms sg) = sg_status sg"
proof -
  let ?p = "progress (updateProgress now g)"
  let ?all = "milestones g \<noteq> [] \<and> (\<forall>m\<in>set (milestones g). isCompleted m)"
  have a: "?p = 100 \<longrightarrow> milestones g \<noteq> []"
    by (simp add: progress_updateProgress)
  have b: "?p = 100 \<longleftrightarrow> ?all" if "length (milestones g) < 200"
  proof (cases "milestones g = []")
    case True
    then show ?thesis by (simp add: progress_updateProgress)
  next
    case False
    have "jsPercent (length (filter isCompleted (milestones g))) (length (milestones g)) = 100
        \<longleftrightarrow> length (filter isCompleted (milestones g)) = length (milestones g)"
      using that False by (intro jsPercent_100_iff) simp_all
    then show ?thesis using False by (simp add: progress_updateProgress all_completed_iff)
  qed
  have c: "status (updateProgress now g) = Completed \<longleftrightarrow> ?p = 100"
    if "status g \<noteq> Completed"
    using that by (cases "status g") (simp_all add: status_updateProgress)
  have b': "length (milestones g) < 200 \<longrightarrow> (?p = 100 \<longleftrightarrow> ?all)"
    using b by blast
  have c': "length (milestones g) < 200 \<and> status g \<noteq> Completed \<longrightarrow>
      (status (updateProgress now g) = Completed \<longleftrightarrow> ?all)"
    using b c by blast
  have d: "sg_status (persistGoal goalId ms sg) = sg_status sg"
    by simp
  show ?thesis
    by (intro conjI) (rule status_updateProgress, rule finishedAt_updateProgress,
        rule a, rule b', rule c', rule d)
qed

theorem status_transitions_witness:
  "status (updateProgress 7 (sample_goal Active 2 3)) = Active
   \<and> status (updateProgress 7 (sample_goal Planning 2 3)) = Active
   \<and> status (updateProgress 7 (sample_goal Active 3 3)) = Completed
   \<and> finishedAt (updateProgress 7 (sample_goal Active 3 3)) = Some 7
   \<and> progress (updateProgress 7 (sample_goal Active 2 3)) \<noteq> 100"
proof -
  have m: "\<not> (\<forall>m\<in>set (milestones (sample_goal Active 2 3)). isCompleted m)"
    by (simp add: sample_goal_def sample_milestones_def) (rule bexI [of _ 2], simp_all)
  have p: "progress (updateProgress 7 (sample_goal Active 2 3)) \<noteq> 100"
    using status_transitions [of 7 "sample_goal Active 2 3"] m
    by (simp add: sample_goal_def)
  have q: "progress (updateProgress 7 (sample_goal s 3 3)) = 100" for s
    by (simp add: progress_updateProgress sample_goal_def jsPercent_all)
  have r: "0 < progress (updateProgress 7 (sample_goal s 2 3))" for s
    by (simp add: progress_updateProgress sample_goal_def fl64_eval)
  have p': "progress (updateProgress 7 (sample_goal s 2 3)) \<noteq> 100" for s
    using p by (simp add: progress_updateProgress sample_goal_def)
  show ?thesis using p q r p'
    by (simp add: status_updateProgress finishedAt_updateProgress) (simp add: sample_goal_def)
qed

theorem status_transitions_counterexample:
  "status (updateProgress 7 (sample_goal Active 199 200)) = Completed
   \<and> length (milestones (sample_goal Active 199 200)) = 200
   \<and> length (filter isCompleted (milestones (sample_goal Active 199 200))) = 199
   \<and> sg_status (persistGoal ''g1'' (sample_milestones 3 3) (sample_stored (JStr ''active'') (JNum 67)))
       = JStr ''active''
   \<and> sg_progress (persistGoal ''g1'' (sample_milestones 3 3) (sample_stored (JStr ''active'') (JNum 67)))
       = JNum 100"
proof -
  have j: "jsPercent 199 200 = 100" by (simp add: fl64_eval)
  show ?thesis
    by (simp add: status_updateProgress progress_updateProgress sample_goal_def
        sample_stored_def persistGoal_def j jsPercent_all)
qed

section \<open>Completing milestones one after another\<close>

lemma length_markCompleted [simp]: "length (markCompleted now i ms) = length ms"
  by (induction ms) simp_all

lemma completed_markCompleted:
  "length (filter isCompleted ms) \<le> length (filter isCompleted (markCompleted now i ms))"
  by (induction ms) simp_all

lemma markCompleted_Nil [simp]: "markCompleted now i ms = [] \<longleftrightarrow> ms = []"
  by (cases ms) simp_all

lemma progress_completeMilestone:
  assumes "completeMilestone now i g = Inr g'"
  shows "progress (updateProgress t g) \<le> progress g'"
    and "progress (updateProgress t g') = progress g'"
proof -
  have g': "g' = updateProgress now (g\<lparr>milestones := markCompleted now i (milestones g)\<rparr>)"
    using assms by (simp add: completeMilestone_def split: option.splits)
  show "progress (updateProgress t g) \<le> progress g'"
    unfolding g' using completed_markCompleted [of "milestones g" now i]
    by (simp add: progress_updateProgress jsPercent_mono)
  show "progress (updateProgress t g') = progress g'"
    unfolding g' by (simp add: progress_updateProgress)
qed

lemma sorted_completeAll:
  assumes "progress g \<le> progress (updateProgress t g)"
  shows "sorted (map progress (g # completeAll g calls))"
  using assms
proof (induction calls arbitrary: g)
  case Nil
  show ?case by simp
next
  case (Cons c calls)
  obtain now i where c: "c = (now, i)" by (cases c)
  show ?case
  proof (cases "completeMilestone now i g")
    case (Inl e)
    then have "completeAll g (c # calls) = g # completeAll g calls" by (simp add: c)
    then show ?thesis using Cons.IH [OF Cons.prems] by simp
  next
    case (Inr g')
    have step: "progress g \<le> progress g'"
      using Cons.prems progress_completeMilestone(1) [OF Inr, of t] by simp
    have inv: "progress g' \<le> progress (updateProgress t g')"
      using progress_completeMilestone(2) [OF Inr, of t] by simp
    have "completeAll g (c # calls) = g' # completeAll g' calls" using Inr by (simp add: c)
    then show ?thesis using Cons.IH [OF inv] step by (auto intro: order_trans)
  qed
qed

lemma progress_addMilestone [simp]: "progress (addMilestone m g) = progress g"
  by (simp add: addMilestone_def)

text \<open>
  C7 (as amended). Take a goal whose stored progress is up to date: it was recomputed since
  its milestone list last changed, or it is 0 as for a new goal (more generally, it is not
  ahead of what a recomputation would give). Then along any sequence of
  \<open>completeMilestone\<close> calls, with nothing else done to the goal in between, the progress
  never decreases: a call that fails leaves the goal, and so the progress, as it was, and a
  call that succeeds yields a progress at least as large as before.
\<close>

theorem progress_never_decreases:
  "sorted (map progress (updateProgress t g0 # completeAll (updateProgress t g0) calls))
   \<and> (progress g = 0 \<longrightarrow> sorted (map progress (g # completeAll g calls)))
   \<and> (progress g \<le> progress (updateProgress t g) \<longrightarrow>
        sorted (map progress (g # completeAll g calls)))"
proof -
  have a: "sorted (map progress (updateProgress t g0 # completeAll (updateProgress t g0) calls))"
    by (rule sorted_completeAll [where t = t]) (simp add: progress_updateProgress)
  have b: "sorted (map progress (g # completeAll g calls))" if "progress g = 0"
    using that progress_updateProgress_range(1) [of t g]
    by (intro sorted_completeAll [where t = t]) simp
  have c: "progress g \<le> progress (updateProgress t g) \<longrightarrow>
      sorted (map progress (g # completeAll g calls))"
    using sorted_completeAll [of g t calls] by blast
  show ?thesis using a b c by blast
qed

theorem progress_never_decreases_witness:
  "progress (sample_goal Planning 0 3) = 0
   \<and> map progress (completeAll (sample_goal Planning 0 3) [(1, ''m''), (2, ''x''), (3, ''mm'')])
       = [33, 33, 67]
   \<and> sorted (map progress (sample_goal Planning 0 3
         # completeAll (sample_goal Planning 0 3) [(1, ''m''), (2, ''x''), (3, ''mm'')]))"
proof -
  have h: "progress (sample_goal Planning 0 3) = 0"
    by (simp add: sample_goal_def)
  have ms: "sample_milestones 0 3 =
      [\<lparr>mid = ''m'', title = ''M'', dependencies = [], isCompleted = False, completedAt = None\<rparr>,
       \<lparr>mid = ''mm'', title = ''M'', dependencies = [], isCompleted = False, completedAt = None\<rparr>,
       \<lparr>mid = ''mmm'', title = ''M'', dependencies = [], isCompleted = False, completedAt = None\<rparr>]"
    by (simp add: sample_milestones_def upt_conv_Cons numeral_3_eq_3)
  have "jsPercent 1 3 = 33" "jsPercent 2 3 = 67"
    by (simp_all add: fl64_eval)
  then have j: "jsPercent (Suc 0) (Suc (Suc (Suc 0))) = 33"
      "jsPercent (Suc (Suc 0)) (Suc (Suc (Suc 0))) = 67"
    by (simp_all add: eval_nat_numeral)
  have v: "map progress (completeAll (sample_goal Planning 0 3) [(1, ''m''), (2, ''x''), (3, ''mm'')])
       = [33, 33, 67]"
    by (simp add: sample_goal_def ms completeMilestone_def byId_def progress_updateProgress j Let_def)
  have s: "sorted (map progress (sample_goal Planning 0 3
         # completeAll (sample_goal Planning 0 3) [(1, ''m''), (2, ''x''), (3, ''mm'')]))"
    using progress_never_decreases [of 0 "sample_goal Planning 0 3"
        "[(1, ''m''), (2, ''x''), (3, ''mm'')]" "sample_goal Planning 0 3"] h
    by blast
  show ?thesis by (intro conjI h v s)
qed

text \<open>
  The goal's only milestone is completed and the progress is 100; two milestones are added,
  which leaves the progress at 100; completing one of them gives 67.
\<close>

theorem progress_never_decreases_counterexample:
  "completeMilestone 1 ''m'' (sample_goal Planning 0 1) = Inr finished_goal
   \<and> progress finished_goal = 100
   \<and> progress (addMilestone (extra ''y'') (addMilestone (extra ''x'') finished_goal)) = 100
   \<and> map progress
        (completeAll (addMilestone (extra ''y'') (addMilestone (extra ''x'') finished_goal))
           [(2, ''x'')]) = [67]"
proof -
  have "jsPercent 2 3 = 67" by (simp add: fl64_eval)
  then have j: "jsPercent (Suc (Suc 0)) (Suc (Suc (Suc 0))) = 67"
    by (simp add: eval_nat_numeral)
  have ms: "sample_milestones 0 (Suc 0) =
      [\<lparr>mid = ''m'', title = ''M'', dependencies = [], isCompleted = False, completedAt = None\<rparr>]"
    by (simp add: sample_milestones_def)
  have a: "completeMilestone 1 ''m'' (sample_goal Planning 0 1) = Inr finished_goal"
    by (simp add: completeMilestone_def sample_goal_def ms byId_def updateProgress_def Let_def
        jsPercent_all finished_goal_def)
  have d: "map progress
        (completeAll (addMilestone (extra ''y'') (addMilestone (extra ''x'') finished_goal))
           [(2, ''x'')]) = [67]"
    by (simp add: addMilestone_def finished_goal_def extra_def completeMilestone_def byId_def
        progress_updateProgress j Let_def)
  show ?thesis using a d by (simp add: finished_goal_def)
qed

section \<open>Dependencies: blocking and the completion check\<close>

lemma byId_Some:
  assumes "byId ms i = Some d"
  shows "d \<in> set ms" and "mid d = i"
  using assms unfolding byId_def by (induction ms) (auto split: if_splits)

lemma byId_distinct:
  assumes "distinct (map mid ms)" "d \<in> set ms"
  shows "byId ms (mid d) = Some d"
  using assms unfolding byId_def by (induction ms) auto

lemma byId_None_iff: "byId ms i = None \<longleftrightarrow> i \<notin> mid ` set ms"
  unfolding byId_def by (induction ms) auto

lemma isMilestoneBlocked_iff:
  "isMilestoneBlocked ms m \<longleftrightarrow>
     \<not> isCompleted m \<and> (\<exists>i\<in>set (dependencies m). \<exists>d. byId ms i = Some d \<and> \<not> isCompleted d)"
  by (auto simp: isMilestoneBlocked_def list_ex_iff split: option.splits)

lemma resolves_incomplete_iff:
  assumes "distinct (map mid ms)"
  shows "(\<exists>i\<in>set ds. \<exists>d. byId ms i = Some d \<and> \<not> isCompleted d)
     \<longleftrightarrow> (\<exists>d\<in>set ms. mid d \<in> set ds \<and> \<not> isCompleted d)"
  using byId_Some byId_distinct [OF assms] by blast


lemma unmetDependencies_Nil_iff:
  "unmetDependencies ms ds = [] \<longleftrightarrow> (\<forall>i\<in>set ds. \<exists>d. byId ms i = Some d \<and> isCompleted d)"
  by (induction ds) (auto split: option.splits)

text \<open>
  C2. A completed milestone is never blocked. An incomplete milestone is blocked exactly when
  one of its dependencies is incomplete, that is, when some milestone of the goal whose id is
  among its dependencies is not completed (ids are unique within a goal). When every
  dependency id resolves, the server's completion check finds an unmet dependency in exactly
  the same case.
\<close>

theorem blocking_correct:
  assumes "distinct (map mid ms)"
  shows "(isCompleted m \<longrightarrow> \<not> isMilestoneBlocked ms m)
       \<and> (\<not> isCompleted m \<longrightarrow>
            (isMilestoneBlocked ms m
               \<longleftrightarrow> (\<exists>d\<in>set ms. mid d \<in> set (dependencies m) \<and> \<not> isCompleted d)))
       \<and> ((\<forall>i\<in>set (dependencies m). byId ms i \<noteq> None) \<longrightarrow>
            (unmetDependencies ms (dependencies m) \<noteq> []
               \<longleftrightarrow> (\<exists>d\<in>set ms. mid d \<in> set (dependencies m) \<and> \<not> isCompleted d)))"
proof -
  have a: "isCompleted m \<longrightarrow> \<not> isMilestoneBlocked ms m"
    by (simp add: isMilestoneBlocked_def)
  have b: "\<not> isCompleted m \<longrightarrow>
      (isMilestoneBlocked ms m
         \<longleftrightarrow> (\<exists>d\<in>set ms. mid d \<in> set (dependencies m) \<and> \<not> isCompleted d))"
    by (simp add: isMilestoneBlocked_iff resolves_incomplete_iff [OF assms])
  have c: "unmetDependencies ms (dependencies m) \<noteq> []
      \<longleftrightarrow> (\<exists>d\<in>set ms. mid d \<in> set (dependencies m) \<and> \<not> isCompleted d)"
    if "\<forall>i\<in>set (dependencies m). byId ms i \<noteq> None"
  proof -
    have "unmetDependencies ms (dependencies m) \<noteq> []
        \<longleftrightarrow> (\<exists>i\<in>set (dependencies m). \<exists>d. byId ms i = Some d \<and> \<not> isCompleted d)"
      using that unfolding unmetDependencies_Nil_iff by fastforce
    then show ?thesis by (simp add: resolves_incomplete_iff [OF assms])
  qed
  show ?thesis using a b c by blast
qed

theorem blocking_correct_witness:
  "distinct (map mid (chain True False False))
   \<and> isMilestoneBlocked (chain True False False) (chain True False False ! 2)
   \<and> \<not> isMilestoneBlocked (chain True False False) (chain True False False ! 1)
   \<and> \<not> isMilestoneBlocked (chain False False True) (chain False False True ! 2)
   \<and> unmetDependencies (chain True False False) (dependencies (chain True False False ! 2))
       = [''Practice'']"
proof -
  have d: "distinct (map mid (chain a b c))" for a b c by (simp add: chain_def)
  have u: "unmetDependencies (chain True False False) (dependencies (chain True False False ! 2))
       = [''Practice'']"
    by (simp add: chain_def byId_def)
  show ?thesis
    using blocking_correct [OF d [of True False False], where m = "chain True False False ! 2"]
      blocking_correct [OF d [of True False False], where m = "chain True False False ! 1"]
      blocking_correct [OF d [of False False True], where m = "chain False False True ! 2"] d u
    by (simp add: chain_def)
qed

text \<open>
  C3. A dependency id that names no milestone of the goal is a failed dependency on the
  server: the completion route reports it as unmet and refuses. The page does not follow:
  for the milestone \<open>orphan\<close>, whose only dependency is missing, \<open>isMilestoneBlocked\<close> is
  false and \<open>toggleMilestone\<close> completes it.
\<close>

theorem dangling_dependency_in_page:
  "\<not> isMilestoneBlocked [orphan] orphan
   \<and> toggleMilestone ''g1'' \<lparr>shown = None, milestoneList = [orphan], stored = []\<rparr> 0
       = (Toggled (Some ''A''),
          \<lparr>shown = None, milestoneList = [orphan\<lparr>isCompleted := True\<rparr>], stored = []\<rparr>)
   \<and> completeRoute 7
         \<lparr>status = Active, progress = 0, milestones = [orphan], completedMilestones = 0,
          finishedAt = None\<rparr> ''A''
       = (DependenciesUnmet [''gone''],
          \<lparr>status = Active, progress = 0, milestones = [orphan], completedMilestones = 0,
           finishedAt = None\<rparr>)"
  by (simp add: isMilestoneBlocked_def toggleMilestone_def completeRoute_def byId_def orphan_def
      persistMilestones_def Let_def)




section \<open>Editing dependencies\<close>

lemma validDependencies_eq:
  "validDependencies castId ms i ds = filter (\<lambda>d. lookupId castId ms d \<noteq> None \<and> d \<noteq> i) ds"
  by (induction ds) simp_all

lemma byId_assignDependencies:
  "byId ms i = Some m \<Longrightarrow> byId (assignDependencies i ds ms) i = Some (m\<lparr>dependencies := ds\<rparr>)"
  unfolding byId_def by (induction ms) (auto split: if_splits)

lemma byId_assignDependencies_other:
  "j \<noteq> i \<Longrightarrow> byId (assignDependencies i ds ms) j = byId ms j"
  unfolding byId_def by (induction ms) auto

lemma hex24_replicate: "hexDigit c \<Longrightarrow> hex24 (replicate 24 c)"
  by (simp add: hex24_def list_all_iff)

lemma castHex_replicate:
  "hexDigit c \<Longrightarrow> castHex (replicate 24 c) = Some (replicate 24 (lowerHex c))"
  by (simp add: castHex_def hex24_replicate)

text \<open>
  C8 (as amended). Let the id \<open>i\<close> of the request path pass the validator and name the
  milestone \<open>m\<close> of the goal. Called with \<open>i\<close> itself as the only candidate, the dependencies
  route succeeds: it drops the candidate, answers with the milestone, and sets the
  milestone's dependencies to the empty list, whatever they were. With any candidates,
  \<open>i\<close> as it is written in the path is never among the ids kept, and the other milestones
  stay as they are. A body that is not an array of ids that pass the validator is answered
  with a validation failure, and the goal stays as it is.
\<close>

theorem self_dependency_dropped:
  assumes "isMongoId i" and "castId i = Some c" and "byId (milestones g) c = Some m"
  shows "dependenciesRoute isMongoId castId g i (Candidates [i])
           = (DependenciesUpdated (m\<lparr>dependencies := []\<rparr>),
              g\<lparr>milestones := assignDependencies c [] (milestones g)\<rparr>)
       \<and> byId (milestones (snd (dependenciesRoute isMongoId castId g i (Candidates [i])))) c
           = Some (m\<lparr>dependencies := []\<rparr>)
       \<and> i \<notin> set (validDependencies castId (milestones g) i ds)
       \<and> (j \<noteq> c \<longrightarrow>
            byId (milestones (snd (dependenciesRoute isMongoId castId g i (Candidates ds)))) j
              = byId (milestones g) j)
       \<and> (\<not> list_all isMongoId ds \<longrightarrow>
            dependenciesRoute isMongoId castId g i (Candidates ds) = (ValidationFailed, g))
       \<and> dependenciesRoute isMongoId castId g i NotAnArray = (ValidationFailed, g)"
proof -
  have c: "mid m = c" using assms(3) by (rule byId_Some(2))
  have l: "lookupId castId (milestones g) i = Some m"
    using assms(2,3) by (simp add: lookupId_def)
  have r: "dependenciesRoute isMongoId castId g i (Candidates [i])
      = (DependenciesUpdated (m\<lparr>dependencies := []\<rparr>),
         g\<lparr>milestones := assignDependencies c [] (milestones g)\<rparr>)"
    using assms(1) l c by (simp add: dependenciesRoute_def Let_def List.map_filter_simps)
  have b: "byId (milestones (snd (dependenciesRoute isMongoId castId g i (Candidates [i])))) c
      = Some (m\<lparr>dependencies := []\<rparr>)"
    unfolding r using assms(3) by (simp add: byId_assignDependencies)
  have v: "i \<notin> set (validDependencies castId (milestones g) i ds)"
    by (simp add: validDependencies_eq)
  have o: "byId (milestones (snd (dependenciesRoute isMongoId castId g i (Candidates ds)))) j
      = byId (milestones g) j" if "j \<noteq> c"
    using that l c by (simp add: dependenciesRoute_def Let_def byId_assignDependencies_other)
  have f: "dependenciesRoute isMongoId castId g i (Candidates ds) = (ValidationFailed, g)"
    if "\<not> list_all isMongoId ds"
    using that by (simp add: dependenciesRoute_def)
  have n: "dependenciesRoute isMongoId castId g i NotAnArray = (ValidationFailed, g)"
    by (simp add: dependenciesRoute_def)
  show ?thesis using r b v o f n by blast
qed

theorem self_dependency_dropped_witness:
  "hex24 (replicate 24 CHR ''b'')
   \<and> castHex (replicate 24 CHR ''b'') = Some (replicate 24 CHR ''b'')
   \<and> byId (milestones hex_goal) (replicate 24 CHR ''b'')
       = Some \<lparr>mid = replicate 24 CHR ''b'', title = ''Practice'',
               dependencies = [replicate 24 CHR ''a''], isCompleted = False, completedAt = None\<rparr>
   \<and> fst (dependenciesRoute hex24 castHex hex_goal (replicate 24 CHR ''b'')
            (Candidates [replicate 24 CHR ''b'']))
       = DependenciesUpdated
           \<lparr>mid = replicate 24 CHR ''b'', title = ''Practice'', dependencies = [],
            isCompleted = False, completedAt = None\<rparr>
   \<and> fst (dependenciesRoute hex24 castHex hex_goal (replicate 24 CHR ''b'')
            (Candidates [replicate 24 CHR ''b'', ''b''])) = ValidationFailed"
proof -
  have h: "hex24 (replicate 24 CHR ''b'')"
    by (rule hex24_replicate) (simp add: hexDigit_def)
  have k: "castHex (replicate 24 CHR ''b'') = Some (replicate 24 CHR ''b'')"
    by (simp add: castHex_replicate hexDigit_def lowerHex_def)
  have ne: "replicate 24 CHR ''b'' \<noteq> replicate 24 CHR ''a''"
    by (simp add: replicate_eq_replicate)
  have b: "byId (milestones hex_goal) (replicate 24 CHR ''b'')
      = Some \<lparr>mid = replicate 24 CHR ''b'', title = ''Practice'',
              dependencies = [replicate 24 CHR ''a''], isCompleted = False, completedAt = None\<rparr>"
    using ne by (simp add: hex_goal_def byId_def)
  have nv: "\<not> list_all hex24 [replicate 24 CHR ''b'', ''b'']"
    by (simp add: hex24_def)
  show ?thesis
    using self_dependency_dropped [where isMongoId = hex24 and castId = castHex
        and i = "replicate 24 CHR ''b''" and ds = "[replicate 24 CHR ''b'', ''b'']", OF h k b]
      h k b nv
    by simp
qed

text \<open>
  A milestone with a dependency loses it to the route, which answers with success; and the
  page's \<open>addDependency\<close> appends a milestone's own id to its dependencies.
\<close>

theorem self_dependency_dropped_counterexample:
  "map dependencies (milestones hex_goal) = [[], [replicate 24 CHR ''a'']]
   \<and> fst (dependenciesRoute hex24 castHex hex_goal (replicate 24 CHR ''b'')
            (Candidates [replicate 24 CHR ''b'']))
       = DependenciesUpdated
           \<lparr>mid = replicate 24 CHR ''b'', title = ''Practice'', dependencies = [],
            isCompleted = False, completedAt = None\<rparr>
   \<and> map dependencies (milestones (snd (dependenciesRoute hex24 castHex hex_goal
          (replicate 24 CHR ''b'') (Candidates [replicate 24 CHR ''b''])))) = [[], []]
   \<and> fst (addDependency ''g1'' (chain_page False False False) ''B'' ''B'') = Edited
   \<and> map dependencies (milestoneList (snd (addDependency ''g1'' (chain_page False False False) ''B'' ''B'')))
       = [[], [''A'', ''B''], [''B'']]"
proof -
  have h: "hex24 (replicate 24 CHR ''b'')"
    by (rule hex24_replicate) (simp add: hexDigit_def)
  have k: "castHex (replicate 24 CHR ''b'') = Some (replicate 24 CHR ''b'')"
    by (simp add: castHex_replicate hexDigit_def lowerHex_def)
  have ne: "replicate 24 CHR ''b'' \<noteq> replicate 24 CHR ''a''"
    by (simp add: replicate_eq_replicate)
  have r: "dependenciesRoute hex24 castHex hex_goal (replicate 24 CHR ''b'')
        (Candidates [replicate 24 CHR ''b''])
      = (DependenciesUpdated
           \<lparr>mid = replicate 24 CHR ''b'', title = ''Practice'', dependencies = [],
            isCompleted = False, completedAt = None\<rparr>,
         hex_goal\<lparr>milestones :=
           [\<lparr>mid = replicate 24 CHR ''a'', title = ''Basics'', dependencies = [],
             isCompleted = False, completedAt = None\<rparr>,
            \<lparr>mid = replicate 24 CHR ''b'', title = ''Practice'', dependencies = [],
             isCompleted = False, completedAt = None\<rparr>]\<rparr>)"
    using h k ne
    by (simp add: dependenciesRoute_def lookupId_def byId_def hex_goal_def Let_def
        List.map_filter_simps)
  show ?thesis
    unfolding r
    by (simp add: hex_goal_def chain_page_def chain_def addDependency_def
        persistMilestones_def Let_def)
qed

text \<open>
  The same id written in capitals is another string: the loop keeps it, and the milestone
  ends up depending on itself.
\<close>

lemma self_dependency_in_capitals:
  "map dependencies (milestones (snd (dependenciesRoute hex24 castHex hex_goal
      (replicate 24 CHR ''b'') (Candidates [replicate 24 CHR ''B'']))))
   = [[], [replicate 24 CHR ''b'']]"
proof -
  have h: "hex24 (replicate 24 CHR ''B'')"
    by (rule hex24_replicate) (simp add: hexDigit_def)
  have k: "castHex (replicate 24 CHR ''B'') = Some (replicate 24 CHR ''b'')"
    "castHex (replicate 24 CHR ''b'') = Some (replicate 24 CHR ''b'')"
    by (simp_all add: castHex_replicate hexDigit_def lowerHex_def)
  have ne: "replicate 24 CHR ''b'' \<noteq> replicate 24 CHR ''a''"
    "replicate 24 CHR ''B'' \<noteq> replicate 24 CHR ''b''"
    by (simp_all add: replicate_eq_replicate)
  show ?thesis
    using h k ne
    by (simp add: dependenciesRoute_def lookupId_def byId_def hex_goal_def Let_def
        List.map_filter_simps)
qed

section \<open>Loading a stored goal into the page\<close>

text \<open>
  C10. The goal that the details page builds from a stored goal has one of the three
  statuses active, completed and paused: a stored status that is one of these strings is
  kept, and anything else (planning and cancelled too, or no string at all) becomes active. A
  stored progress that is a number is kept, and anything else becomes 0.
\<close>

theorem normalize_status_progress:
  "pg_status (normalize g) \<in> {''active'', ''completed'', ''paused''}
   \<and> (sg_status g \<in> {JStr ''active'', JStr ''completed'', JStr ''paused''}
        \<longrightarrow> sg_status g = JStr (pg_status (normalize g)))
   \<and> (sg_status g \<notin> {JStr ''active'', JStr ''completed'', JStr ''paused''}
        \<longrightarrow> pg_status (normalize g) = ''active'')
   \<and> (\<forall>x. sg_progress g = JNum x \<longrightarrow> pg_progress (normalize g) = x)
   \<and> ((\<forall>x. sg_progress g \<noteq> JNum x) \<longrightarrow> pg_progress (normalize g) = 0)"
  by (cases "sg_status g"; cases "sg_progress g") (auto simp: normalize_def)

theorem normalize_status_progress_witness:
  "pg_status (normalize (sample_stored (JStr ''planning'') (JStr ''80''))) = ''active''
   \<and> pg_progress (normalize (sample_stored (JStr ''planning'') (JStr ''80''))) = 0
   \<and> pg_status (normalize (sample_stored (JStr ''cancelled'') JUndefined)) = ''active''
   \<and> pg_status (normalize (sample_stored (JStr ''paused'') (JNum 40))) = ''paused''
   \<and> pg_progress (normalize (sample_stored (JStr ''paused'') (JNum 40))) = 40"
  using normalize_status_progress [of "sample_stored (JStr ''planning'') (JStr ''80'')"]
    normalize_status_progress [of "sample_stored (JStr ''cancelled'') JUndefined"]
    normalize_status_progress [of "sample_stored (JStr ''paused'') (JNum 40)"]
  by (simp add: sample_stored_def)

end
